theory Spec2Isabelle
  imports Main "HOL-Library.Word"
begin

section \<open>Data model\<close>

text \<open>
  The development embeds the class \<open>RPC\<close> of \<open>src/RPC.ts\<close>. The source file holds two
  revisions of the class: the TypeScript text (lines 1-146) and the compiled module
  (lines 147-285). The compiled module is the later one: it adds the \<open>timeout\<close> option,
  the watchdog in \<open>request\<close> and the classification of thrown values in
  \<open>handleMessage\<close>; the parts the two revisions share (\<open>genMsgId\<close>, the send and its
  failure in \<open>request\<close>, \<open>notify\<close>, the method lookup and the response branch of
  \<open>handleMessage\<close>) are the same statements. The definitions below follow the compiled
  module.

  Messages are modelled decoded (the codec \<open>RPCProtocol\<close> is not part of the file): a
  message has an optional \<open>request\<close> and an optional \<open>response\<close>, as
  \<open>const { request, response } = message\<close> reads it. A \<open>Uint8Array\<close> is a list of
  bytes, an absent (\<open>undefined\<close>) field is \<open>None\<close>.
\<close>

type_synonym bytes = "8 word list"

type_synonym PeerId = string

record RPCError =
  code :: int
  message :: string

record Request =
  req_id :: "int option"
  req_name :: string
  req_params :: "bytes option"

record Response =
  resp_id :: int
  resp_result :: "bytes option"
  resp_error :: "RPCError option"

record RPCMessage =
  msg_request :: "Request option"
  msg_response :: "Response option"

text \<open>
  What a method handler can throw, as the \<open>catch\<close> block of \<open>handleMessage\<close> tells the
  values apart: an \<open>RPCException\<close> (message and code), any other \<open>Error\<close> (message), or
  any other value, of which the block only uses \<open>JSON.stringify(err)\<close>. That call returns
  a text, returns \<open>undefined\<close> (for \<open>undefined\<close>, a function or a symbol) or throws (a
  cyclic object, a \<open>BigInt\<close>). The class \<open>RPCException\<close> is in \<open>RPCException.js\<close>,
  not in the source file; as the spec's \<open>RPCError\<close> it is taken to hold the message and
  the code it is constructed with.
\<close>

datatype stringified = JSONText string | JSONUndefined | JSONThrows

datatype thrown = RPCException string int | Error string | Other stringified

text \<open>
  A handler \<open>RPCMethod\<close> maps \<open>(params, sender)\<close> to bytes or nothing, or throws. Handlers
  are taken as functions of their arguments: a handler that itself calls back into the
  node is outside the model.
\<close>

type_synonym RPCMethod = "bytes option \<Rightarrow> PeerId \<Rightarrow> thrown + bytes option"

text \<open>
  The promise that \<open>request\<close> returns. A JavaScript promise settles once: \<open>resolve\<close> and
  \<open>reject\<close> on a settled promise do nothing.
\<close>

datatype future = Pending | Resolved "bytes option" | Rejected RPCError

text \<open>
  The transport (\<open>this.handler.send\<close>) is an external collaborator: each call either
  delivers the message or fails with an error, of which the code reads \<open>error.message\<close>.
  The outcome of each send is an argument of the operation that sends.
\<close>

datatype send_outcome = Delivered | Failed string

record RPCOpts =
  protocol :: string
  timeout :: int

record PartialOpts =
  opt_protocol :: "string option"
  opt_timeout :: "int option"

text \<open>
  The node. \<open>options\<close>, \<open>methods\<close> and \<open>msgPromises\<close> are the fields of the class;
  \<open>msgId\<close> is the variable \<open>id\<close> captured by \<open>genMsgId\<close>. A \<open>Resolver\<close> (the pair of
  \<open>resolve\<close> and \<open>reject\<close> of one promise) is the index of that promise in \<open>futures\<close>.
  \<open>timers\<close> are the callbacks scheduled with \<open>setTimeout\<close> and not yet run (promise and
  delay), \<open>sent\<close> the messages the transport has taken, in order.
\<close>

record RPC =
  options :: RPCOpts
  methods :: "string \<rightharpoonup> RPCMethod"
  msgPromises :: "int \<rightharpoonup> nat"
  msgId :: int
  futures :: "future list"
  timers :: "(nat \<times> int) list"
  sent :: "(PeerId \<times> RPCMessage) list"

section \<open>Message constructors\<close>

text \<open>
  Modelled from the spec: \<open>Messages.createRequest\<close> of \<open>RPCMessages.js\<close>, which is not in
  the source file. The spec's Request is \<open>{id, name, params}\<close>; the encoding to bytes is
  left out, the codec being lossless by the spec's round-trip law.
\<close>

definition createRequest :: "string \<Rightarrow> int \<Rightarrow> bytes option \<Rightarrow> RPCMessage" where
  "createRequest n i ps =
     \<lparr>msg_request = Some \<lparr>req_id = Some i, req_name = n, req_params = ps\<rparr>,
      msg_response = None\<rparr>"

text \<open>
  Modelled from the spec: \<open>Messages.createNotification\<close> of \<open>RPCMessages.js\<close>, not in the
  source file. By the spec a notification is a request with absent id.
\<close>

definition createNotification :: "string \<Rightarrow> bytes option \<Rightarrow> RPCMessage" where
  "createNotification n ps =
     \<lparr>msg_request = Some \<lparr>req_id = None, req_name = n, req_params = ps\<rparr>,
      msg_response = None\<rparr>"

text \<open>
  Modelled from the spec: \<open>Messages.createResponse\<close> of \<open>RPCMessages.js\<close>, not in the
  source file. The spec's Response is \<open>{id, result, error}\<close>; a success carries no error.
\<close>

definition createResponse :: "int \<Rightarrow> bytes option \<Rightarrow> RPCMessage" where
  "createResponse i r =
     \<lparr>msg_request = None,
      msg_response = Some \<lparr>resp_id = i, resp_result = r, resp_error = None\<rparr>\<rparr>"

text \<open>
  Modelled from the spec: \<open>Messages.createError\<close> of \<open>RPCMessages.js\<close>, not in the source
  file: an error response carries the id and an \<open>RPCError {code, message}\<close>, and no result.
\<close>

definition createError :: "int \<Rightarrow> string \<Rightarrow> int \<Rightarrow> RPCMessage" where
  "createError i m c =
     \<lparr>msg_request = None,
      msg_response = Some \<lparr>resp_id = i, resp_result = None,
                             resp_error = Some \<lparr>code = c, message = m\<rparr>\<rparr>\<rparr>"

text \<open>
  Modelled from the spec: the reserved code of "method not found", which the spec gives
  as the JSON-RPC value -32601. The constant lives in \<open>RPCMessages.js\<close>, not in the source
  file.
\<close>

definition METHOD_NOT_FOUND :: int where
  "METHOD_NOT_FOUND = - 32601"

text \<open>
  Modelled from the spec: \<open>Messages.createMethodNotFoundError\<close> of \<open>RPCMessages.js\<close>, not
  in the source file: an error response carrying the id and the reserved code. The spec
  does not fix the message text.
\<close>

definition createMethodNotFoundError :: "int \<Rightarrow> RPCMessage" where
  "createMethodNotFoundError i = createError i ''Method not found'' METHOD_NOT_FOUND"

section \<open>Operations of the node\<close>

text \<open>
  The constructor: \<open>options.protocol ?? "/libp2p-rpc/0.0.1"\<close>, \<open>options.timeout ?? 5000\<close>,
  empty maps, and \<open>let id = 0\<close> in \<open>genMsgId\<close>.
\<close>

definition new_RPC :: "PartialOpts \<Rightarrow> RPC" where
  "new_RPC opts =
     \<lparr>options = \<lparr>protocol = (case opt_protocol opts of None \<Rightarrow> ''/libp2p-rpc/0.0.1'' | Some p \<Rightarrow> p),
                 timeout = (case opt_timeout opts of None \<Rightarrow> 5000 | Some t \<Rightarrow> t)\<rparr>,
      methods = Map.empty, msgPromises = Map.empty, msgId = 0,
      futures = [], timers = [], sent = []\<rparr>"

text \<open>
  \<open>genMsgId = () => id++\<close>: returns the counter and increments it. The counter is a
  JavaScript number, an IEEE double: \<open>id + 1\<close> is exact as long as \<open>id < 2^53\<close>; at
  \<open>id = 2^53\<close> the sum \<open>2^53 + 1\<close> has no double and rounds back to \<open>2^53\<close> (round to
  nearest, ties to even), so the counter stays there. Starting from 0 the counter never
  exceeds \<open>2^53\<close>.
\<close>

definition genMsgId :: "RPC \<Rightarrow> int \<times> RPC" where
  "genMsgId s = (msgId s, s\<lparr>msgId := (if msgId s < 2 ^ 53 then msgId s + 1 else msgId s)\<rparr>)"

text \<open>\<open>addMethod\<close>: \<open>this.methods.set(name, method)\<close>.\<close>

definition addMethod :: "RPC \<Rightarrow> string \<Rightarrow> RPCMethod \<Rightarrow> RPC" where
  "addMethod s n f = s\<lparr>methods := (methods s)(n \<mapsto> f)\<rparr>"

text \<open>
  One call of \<open>this.handler.send(msg, peer)\<close> with its outcome: the value is the thrown
  error's message, if the transport failed.
\<close>

definition send :: "RPC \<Rightarrow> PeerId \<Rightarrow> RPCMessage \<Rightarrow> send_outcome \<Rightarrow> string option \<times> RPC" where
  "send s peer m out =
     (case out of
        Delivered \<Rightarrow> (None, s\<lparr>sent := sent s @ [(peer, m)]\<rparr>)
      | Failed e \<Rightarrow> (Some e, s))"

text \<open>Settling a promise: only a pending promise changes.\<close>

definition settle :: "future \<Rightarrow> future \<Rightarrow> future" where
  "settle f v = (case f of Pending \<Rightarrow> v | _ \<Rightarrow> f)"

definition resolve :: "RPC \<Rightarrow> nat \<Rightarrow> bytes option \<Rightarrow> RPC" where
  "resolve s h r =
     (if h < length (futures s)
      then s\<lparr>futures := (futures s)[h := settle (futures s ! h) (Resolved r)]\<rparr>
      else s)"

definition reject :: "RPC \<Rightarrow> nat \<Rightarrow> RPCError \<Rightarrow> RPC" where
  "reject s h e =
     (if h < length (futures s)
      then s\<lparr>futures := (futures s)[h := settle (futures s ! h) (Rejected e)]\<rparr>
      else s)"

text \<open>
  \<open>request\<close>, first half (lines 199-210): allocate the id, send the request; a failed
  send is rethrown as \<open>{code: -32000, message: error.message}\<close>. The value is the
  allocated \<open>messageId\<close>, the error thrown if any, and the node.
\<close>

definition request_send ::
  "RPC \<Rightarrow> PeerId \<Rightarrow> string \<Rightarrow> bytes option \<Rightarrow> send_outcome \<Rightarrow> int \<times> RPCError option \<times> RPC" where
  "request_send s peer n ps out =
     (case genMsgId s of
        (messageId, s1) \<Rightarrow>
          (case send s1 peer (createRequest n messageId ps) out of
             (None, s2) \<Rightarrow> (messageId, None, s2)
           | (Some e, s2) \<Rightarrow> (messageId, Some \<lparr>code = - 32000, message = e\<rparr>, s2)))"

text \<open>
  \<open>request\<close>, second half (lines 212-219): the executor of the new promise stores the
  resolver under \<open>messageId\<close> and, unless the timeout is negative, schedules
  \<open>() => reject(timeoutError)\<close>. The value is the new promise.
\<close>

definition request_register :: "RPC \<Rightarrow> int \<Rightarrow> nat \<times> RPC" where
  "request_register s messageId =
     (let h = length (futures s);
          s1 = s\<lparr>futures := futures s @ [Pending],
                 msgPromises := (msgPromises s)(messageId \<mapsto> h)\<rparr>
      in if timeout (options s1) < 0 then (h, s1)
         else (h, s1\<lparr>timers := timers s1 @ [(h, timeout (options s1))]\<rparr>))"

text \<open>
  \<open>request\<close>: \<open>Inl\<close> is the error thrown to the caller, \<open>Inr\<close> the promise the caller
  awaits.
\<close>

definition request ::
  "RPC \<Rightarrow> PeerId \<Rightarrow> string \<Rightarrow> bytes option \<Rightarrow> send_outcome \<Rightarrow> (RPCError + nat) \<times> RPC" where
  "request s peer n ps out =
     (case request_send s peer n ps out of
        (messageId, Some err, s1) \<Rightarrow> (Inl err, s1)
      | (messageId, None, s1) \<Rightarrow>
          (case request_register s1 messageId of (h, s2) \<Rightarrow> (Inr h, s2)))"

text \<open>
  The scheduled callback \<open>() => reject(timeoutError)\<close> with
  \<open>timeoutError = new RPCException("timeout", 0)\<close>, run when the timer \<open>t\<close> is due. Real
  time is not modelled: a scheduled timer may run at any later step.
\<close>

definition timeoutError :: RPCError where
  "timeoutError = \<lparr>code = 0, message = ''timeout''\<rparr>"

definition fire_timeout :: "RPC \<Rightarrow> nat \<times> int \<Rightarrow> RPC" where
  "fire_timeout s t =
     (if t \<in> set (timers s)
      then reject (s\<lparr>timers := remove1 t (timers s)\<rparr>) (fst t) timeoutError
      else s)"

text \<open>
  \<open>notify\<close>: \<open>this.handler.send(createNotification(name, params), peer).catch(() => {})\<close>.
  The first component is what the caller gets thrown.
\<close>

definition notify ::
  "RPC \<Rightarrow> PeerId \<Rightarrow> string \<Rightarrow> bytes option \<Rightarrow> send_outcome \<Rightarrow> string option \<times> RPC" where
  "notify s peer n ps out =
     (case send s peer (createNotification n ps) out of (r, s1) \<Rightarrow> (None, s1))"

text \<open>
  The \<open>catch (err)\<close> block of \<open>handleMessage\<close> (lines 245-262): the value of the outer
  variable \<open>error\<close> after the block. In the last case the inner handler is
  \<open>catch (error) { error = new RPCException("unknown error", 0); }\<close>: its parameter is
  named \<open>error\<close> too, so the assignment goes to the parameter and the outer \<open>error\<close>
  keeps its initial \<open>null\<close>. \<open>new RPCException(undefined, 0)\<close> has the empty message of
  \<open>Error\<close>.
\<close>

fun handleMessage_catch :: "thrown \<Rightarrow> RPCError option" where
  "handleMessage_catch (RPCException m c) = Some \<lparr>code = c, message = m\<rparr>"
| "handleMessage_catch (Error m) = Some \<lparr>code = 0, message = m\<rparr>"
| "handleMessage_catch (Other (JSONText t)) = Some \<lparr>code = 0, message = t\<rparr>"
| "handleMessage_catch (Other JSONUndefined) = Some \<lparr>code = 0, message = ''''\<rparr>"
| "handleMessage_catch (Other JSONThrows) = None"

text \<open>
  \<open>handleMessage\<close> (lines 227-283). The first component is the error the call ends with,
  which can only be the transport's.
\<close>

definition handleMessage ::
  "RPC \<Rightarrow> RPCMessage \<Rightarrow> PeerId \<Rightarrow> send_outcome \<Rightarrow> string option \<times> RPC" where
  "handleMessage s m peer out =
     (case msg_request m of
        Some rq \<Rightarrow>
          (case methods s (req_name rq) of
             None \<Rightarrow>
               (case req_id rq of
                  None \<Rightarrow> (None, s)
                | Some i \<Rightarrow> send s peer (createMethodNotFoundError i) out)
           | Some f \<Rightarrow>
               (case (case f (req_params rq) peer of
                        Inr r \<Rightarrow> (r, None)
                      | Inl err \<Rightarrow> (None, handleMessage_catch err)) of
                  (res, err) \<Rightarrow>
                    (case req_id rq of
                       None \<Rightarrow> (None, s)
                     | Some i \<Rightarrow>
                         (case err of
                            Some e \<Rightarrow> send s peer (createError i (message e) (code e)) out
                          | None \<Rightarrow> send s peer (createResponse i res) out))))
      | None \<Rightarrow>
          (case msg_response m of
             None \<Rightarrow> (None, s)
           | Some rs \<Rightarrow>
               (case msgPromises s (resp_id rs) of
                  None \<Rightarrow> (None, s)
                | Some resolver \<Rightarrow>
                    (let s1 = s\<lparr>msgPromises := (msgPromises s)(resp_id rs := None)\<rparr>
                     in case resp_error rs of
                          None \<Rightarrow> (None, resolve s1 resolver (resp_result rs))
                        | Some e \<Rightarrow> (None, reject s1 resolver e)))))"

text \<open>
  Everything that can happen to a node, one step each: the public operations, an inbound
  message and a timer that runs. \<open>request\<close> is suspended while its send is in flight
  and other steps can come in between: \<open>CallRequest\<close> is a call that runs through,
  \<open>RequestSends\<close> and \<open>RequestRegisters\<close> are the two halves of a call that is
  interleaved with other steps. \<open>handleMessage\<close> changes the node only by its one send
  and \<open>notify\<close> is not suspended, so they are one step each.
\<close>

datatype event =
  AddMethod string RPCMethod
| CallRequest PeerId string "bytes option" send_outcome
| RequestSends PeerId string "bytes option" send_outcome
| RequestRegisters int
| CallNotify PeerId string "bytes option" send_outcome
| Inbound RPCMessage PeerId send_outcome
| TimerRuns nat int

fun step :: "RPC \<Rightarrow> event \<Rightarrow> RPC" where
  "step s (AddMethod n f) = addMethod s n f"
| "step s (CallRequest peer n ps out) = snd (request s peer n ps out)"
| "step s (RequestSends peer n ps out) = snd (snd (request_send s peer n ps out))"
| "step s (RequestRegisters i) = snd (request_register s i)"
| "step s (CallNotify peer n ps out) = snd (notify s peer n ps out)"
| "step s (Inbound m peer out) = snd (handleMessage s m peer out)"
| "step s (TimerRuns h d) = fire_timeout s (h, d)"

definition run :: "RPC \<Rightarrow> event list \<Rightarrow> RPC" where
  "run s es = foldl step s es"

text \<open>
  The states a node can be in: the constructor's, and what any step makes of one.
\<close>

inductive reachable :: "RPC \<Rightarrow> bool" where
  init: "reachable (new_RPC opts)"
| after: "reachable s \<Longrightarrow> reachable (step s e)"

text \<open>
  What holds of every reachable node: the id counter is between 0 and \<open>2^53\<close>, and the
  timers and the resolvers in \<open>msgPromises\<close> refer to promises that exist.
\<close>

definition node_inv :: "RPC \<Rightarrow> bool" where
  "node_inv s \<longleftrightarrow>
     0 \<le> msgId s \<and> msgId s \<le> 2 ^ 53 \<and>
     (\<forall>t \<in> set (timers s). fst t < length (futures s)) \<and>
     (\<forall>i h. msgPromises s i = Some h \<longrightarrow> h < length (futures s))"

text \<open>
  \<open>waiting s i h\<close>: the promise \<open>h\<close> is pending and no id but \<open>i\<close> leads to it in
  \<open>msgPromises\<close>.
\<close>

definition waiting :: "RPC \<Rightarrow> int \<Rightarrow> nat \<Rightarrow> bool" where
  "waiting s i h \<longleftrightarrow>
     h < length (futures s) \<and> futures s ! h = Pending \<and>
     (\<forall>j. msgPromises s j = Some h \<longrightarrow> j = i)"

text \<open>\<open>answers i e\<close>: the event is an inbound response carrying the id \<open>i\<close>.\<close>

fun answers :: "int \<Rightarrow> event \<Rightarrow> bool" where
  "answers i (Inbound m peer out) =
     (case msg_request m of
        Some rq \<Rightarrow> False
      | None \<Rightarrow> (case msg_response m of None \<Rightarrow> False | Some rs \<Rightarrow> resp_id rs = i))"
| "answers i (AddMethod n f) = False"
| "answers i (CallRequest peer n ps out) = False"
| "answers i (RequestSends peer n ps out) = False"
| "answers i (RequestRegisters j) = False"
| "answers i (CallNotify peer n ps out) = False"
| "answers i (TimerRuns h d) = False"

text \<open>\<open>expires h e\<close>: the event is a timer of the promise \<open>h\<close> running.\<close>

fun expires :: "nat \<Rightarrow> event \<Rightarrow> bool" where
  "expires h (TimerRuns h' d) = (h' = h)"
| "expires h (AddMethod n f) = False"
| "expires h (CallRequest peer n ps out) = False"
| "expires h (RequestSends peer n ps out) = False"
| "expires h (RequestRegisters i) = False"
| "expires h (CallNotify peer n ps out) = False"
| "expires h (Inbound m peer out) = False"

text \<open>
  A call of \<open>request\<close>: peer, name, params and the outcome of its send. \<open>request_all\<close>
  makes the calls one after the other and lists the \<open>messageId\<close> each one allocated.
\<close>

type_synonym call = "PeerId \<times> string \<times> bytes option \<times> send_outcome"

fun request_all :: "RPC \<Rightarrow> call list \<Rightarrow> int list \<times> RPC" where
  "request_all s [] = ([], s)"
| "request_all s ((peer, n, ps, out) # cs) =
     (case request_all (snd (request s peer n ps out)) cs of
        (ids, s') \<Rightarrow> (fst (request_send s peer n ps out) # ids, s'))"

text \<open>The ids of the requests in a list of sent messages.\<close>

definition request_ids :: "(PeerId \<times> RPCMessage) list \<Rightarrow> int list" where
  "request_ids ms =
     concat (map (\<lambda>(peer, m). case msg_request m of
                                 None \<Rightarrow> []
                               | Some rq \<Rightarrow> (case req_id rq of None \<Rightarrow> [] | Some i \<Rightarrow> [i])) ms)"

text \<open>Sample inputs.\<close>

definition no_opts :: PartialOpts where
  "no_opts = \<lparr>opt_protocol = None, opt_timeout = None\<rparr>"

definition opts50 :: PartialOpts where
  "opts50 = \<lparr>opt_protocol = None, opt_timeout = Some 50\<rparr>"

definition opts_no_timeout :: PartialOpts where
  "opts_no_timeout = \<lparr>opt_protocol = None, opt_timeout = Some (- 1)\<rparr>"

definition explode :: RPCMethod where
  "explode ps peer = Inl (Other JSONThrows)"

definition pending_node :: RPC where
  "pending_node = snd (request (new_RPC opts50) ''peerA'' ''echo'' None Delivered)"

definition two_pending :: RPC where
  "two_pending = snd (request pending_node ''peerB'' ''add'' (Some [2, 3]) Delivered)"

definition timed_out_node :: RPC where
  "timed_out_node = fire_timeout pending_node (0, 50)"

definition answered_node :: RPC where
  "answered_node =
     snd (handleMessage pending_node (createResponse 0 (Some [5])) ''peerA'' Delivered)"

definition exploding_node :: RPC where
  "exploding_node = addMethod (new_RPC no_opts) ''explode'' explode"

section \<open>Effects of the operations, field by field\<close>

lemma request_Delivered:
  "request s peer n ps Delivered =
     (Inr (length (futures s)),
      s\<lparr>msgId := (if msgId s < 2 ^ 53 then msgId s + 1 else msgId s),
        sent := sent s @ [(peer, createRequest n (msgId s) ps)],
        futures := futures s @ [Pending],
        msgPromises := (msgPromises s)(msgId s \<mapsto> length (futures s)),
        timers := (if timeout (options s) < 0 then timers s
                   else timers s @ [(length (futures s), timeout (options s))])\<rparr>)"
  by (simp add: request_def request_send_def request_register_def genMsgId_def send_def Let_def)

lemma request_Failed:
  "request s peer n ps (Failed e) =
     (Inl \<lparr>code = - 32000, message = e\<rparr>,
      s\<lparr>msgId := (if msgId s < 2 ^ 53 then msgId s + 1 else msgId s)\<rparr>)"
  by (simp add: request_def request_send_def genMsgId_def send_def)

lemma request_send_state:
  "snd (snd (request_send s peer n ps out)) =
     (case out of
        Delivered \<Rightarrow>
          s\<lparr>msgId := (if msgId s < 2 ^ 53 then msgId s + 1 else msgId s),
            sent := sent s @ [(peer, createRequest n (msgId s) ps)]\<rparr>
      | Failed e \<Rightarrow> s\<lparr>msgId := (if msgId s < 2 ^ 53 then msgId s + 1 else msgId s)\<rparr>)"
  by (simp add: request_send_def genMsgId_def send_def split: send_outcome.split)

lemma request_register_state:
  "request_register s i =
     (length (futures s),
      s\<lparr>futures := futures s @ [Pending],
        msgPromises := (msgPromises s)(i \<mapsto> length (futures s)),
        timers := (if timeout (options s) < 0 then timers s
                   else timers s @ [(length (futures s), timeout (options s))])\<rparr>)"
  by (simp add: request_register_def Let_def)

lemma request_halves:
  "request s peer n ps Delivered =
     (case request_register (snd (snd (request_send s peer n ps Delivered))) (msgId s) of
        (h, s2) \<Rightarrow> (Inr h, s2))"
  by (simp add: request_def request_send_def genMsgId_def send_def)

lemma notify_state:
  "notify s peer n ps out =
     (None, case out of Delivered \<Rightarrow> s\<lparr>sent := sent s @ [(peer, createNotification n ps)]\<rparr>
                      | Failed e \<Rightarrow> s)"
  by (simp add: notify_def send_def split: send_outcome.split)

lemma send_fields [simp]:
  "futures (snd (send s peer m out)) = futures s"
  "msgPromises (snd (send s peer m out)) = msgPromises s"
  "timers (snd (send s peer m out)) = timers s"
  "msgId (snd (send s peer m out)) = msgId s"
  "options (snd (send s peer m out)) = options s"
  by (simp_all add: send_def split: send_outcome.split)

lemma handleMessage_request_fields:
  assumes "msg_request m = Some rq"
  shows "futures (snd (handleMessage s m peer out)) = futures s"
    and "msgPromises (snd (handleMessage s m peer out)) = msgPromises s"
    and "timers (snd (handleMessage s m peer out)) = timers s"
    and "msgId (snd (handleMessage s m peer out)) = msgId s"
    and "options (snd (handleMessage s m peer out)) = options s"
  using assms
  by (simp_all add: handleMessage_def split: option.split sum.split prod.split)

lemma handleMessage_response:
  assumes "msg_request m = None" and "msg_response m = Some rs"
  shows "snd (handleMessage s m peer out) =
     (case msgPromises s (resp_id rs) of
        None \<Rightarrow> s
      | Some h \<Rightarrow>
          s\<lparr>msgPromises := (msgPromises s)(resp_id rs := None),
            futures := (if h < length (futures s)
                        then (futures s)[h := settle (futures s ! h)
                               (case resp_error rs of None \<Rightarrow> Resolved (resp_result rs)
                                                    | Some e \<Rightarrow> Rejected e)]
                        else futures s)\<rparr>)"
  using assms
  by (simp add: handleMessage_def resolve_def reject_def Let_def split: option.split)

lemma handleMessage_neither:
  assumes "msg_request m = None" and "msg_response m = None"
  shows "handleMessage s m peer out = (None, s)"
  using assms by (simp add: handleMessage_def)

lemma fire_timeout_state:
  "fire_timeout s t =
     (if t \<in> set (timers s)
      then s\<lparr>timers := remove1 t (timers s),
             futures := (if fst t < length (futures s)
                         then (futures s)[fst t := settle (futures s ! fst t) (Rejected timeoutError)]
                         else futures s)\<rparr>
      else s)"
  by (simp add: fire_timeout_def reject_def)

lemma request_options: "options (snd (request s peer n ps out)) = options s"
  by (cases out) (simp_all add: request_Delivered request_Failed)

lemma step_cases_fields:
  "options (step s e) = options s"
proof (cases e)
  case (Inbound m peer out)
  show ?thesis
  proof (cases "msg_request m")
    case (Some rq)
    then show ?thesis using Inbound by (simp add: handleMessage_request_fields)
  next
    case None
    then show ?thesis using Inbound
      by (cases "msg_response m")
         (simp_all add: handleMessage_neither handleMessage_response split: option.split)
  qed
qed (simp_all add: addMethod_def request_options request_send_state request_register_state
       notify_state fire_timeout_state split: send_outcome.split)

lemma run_Nil [simp]: "run s [] = s"
  by (simp add: run_def)

lemma run_Cons [simp]: "run s (e # es) = run (step s e) es"
  by (simp add: run_def)

lemma run_append: "run s (es @ es') = run (run s es) es'"
  by (simp add: run_def)

lemma run_options: "options (run s es) = options s"
  by (induction es arbitrary: s) (simp_all add: step_cases_fields)

lemma request_msgId:
  "msgId (snd (request s peer n ps out)) = (if msgId s < 2 ^ 53 then msgId s + 1 else msgId s)"
  by (cases out) (simp_all add: request_Delivered request_Failed)

lemma request_send_id: "fst (request_send s peer n ps out) = msgId s"
  by (simp add: request_send_def genMsgId_def send_def split: send_outcome.split)

section \<open>A settled promise stays as it is\<close>

lemma settle_settled: "f \<noteq> Pending \<Longrightarrow> settle f v = f"
  by (cases f) (simp_all add: settle_def)

lemma step_keeps_length: "length (futures s) \<le> length (futures (step s e))"
proof (cases e)
  case (CallRequest peer n ps out)
  then show ?thesis
    by (cases out) (simp_all add: request_Delivered request_Failed)
next
  case (Inbound m peer out)
  show ?thesis
  proof (cases "msg_request m")
    case (Some rq)
    then show ?thesis using Inbound by (simp add: handleMessage_request_fields)
  next
    case None
    then show ?thesis using Inbound
      by (cases "msg_response m")
         (simp_all add: handleMessage_neither handleMessage_response split: option.split)
  qed
qed (simp_all add: addMethod_def request_send_state request_register_state notify_state
       fire_timeout_state split: send_outcome.split)

lemma step_settled:
  assumes "h < length (futures s)" and "futures s ! h \<noteq> Pending"
  shows "futures (step s e) ! h = futures s ! h"
proof (cases e)
  case (CallRequest peer n ps out)
  then show ?thesis using assms
    by (cases out) (simp_all add: request_Delivered request_Failed nth_append)
next
  case (Inbound m peer out)
  show ?thesis
  proof (cases "msg_request m")
    case (Some rq)
    then show ?thesis using Inbound by (simp add: handleMessage_request_fields)
  next
    case None
    then show ?thesis using Inbound assms
      by (cases "msg_response m")
         (auto simp: handleMessage_neither handleMessage_response nth_list_update settle_settled
               split: option.split)
  qed
next
  case (TimerRuns h' d)
  then show ?thesis using assms
    by (auto simp: fire_timeout_state nth_list_update settle_settled)
next
  case (RequestRegisters i)
  then show ?thesis using assms
    by (simp add: request_register_state nth_append)
qed (simp_all add: addMethod_def request_send_state notify_state split: send_outcome.split)

lemma run_settled:
  assumes "h < length (futures s)" and "futures s ! h \<noteq> Pending"
  shows "h < length (futures (run s es)) \<and> futures (run s es) ! h = futures s ! h"
  using assms
proof (induction es arbitrary: s)
  case Nil
  then show ?case by simp
next
  case (Cons e es)
  have "h < length (futures (step s e))"
    using Cons.prems(1) step_keeps_length [of s e] by simp
  moreover have "futures (step s e) ! h = futures s ! h"
    using Cons.prems by (rule step_settled)
  ultimately show ?case
    using Cons.IH [of "step s e"] Cons.prems(2) by simp
qed

section \<open>Invariant of the reachable nodes\<close>

lemma node_inv_new: "node_inv (new_RPC opts)"
  by (simp add: node_inv_def new_RPC_def)

lemma node_inv_step:
  assumes "node_inv s"
  shows "node_inv (step s e)"
proof (cases e)
  case (AddMethod n f)
  then show ?thesis using assms by (simp add: node_inv_def addMethod_def)
next
  case (CallRequest peer n ps out)
  then show ?thesis using assms
    by (cases out) (auto simp: node_inv_def request_Delivered request_Failed less_Suc_eq)
next
  case (RequestSends peer n ps out)
  then show ?thesis using assms
    by (cases out) (auto simp: node_inv_def request_send_state)
next
  case (RequestRegisters i)
  then show ?thesis using assms
    by (auto simp: node_inv_def request_register_state less_Suc_eq)
next
  case (CallNotify peer n ps out)
  then show ?thesis using assms
    by (cases out) (simp_all add: node_inv_def notify_state)
next
  case (Inbound m peer out)
  show ?thesis
  proof (cases "msg_request m")
    case (Some rq)
    then show ?thesis using Inbound assms
      by (simp add: node_inv_def handleMessage_request_fields)
  next
    case None
    then show ?thesis using Inbound assms
      by (cases "msg_response m")
         (auto simp: node_inv_def handleMessage_neither handleMessage_response
               split: option.split if_splits)
  qed
next
  case (TimerRuns h d)
  then show ?thesis using assms
    by (auto simp: node_inv_def fire_timeout_state dest: notin_set_remove1)
qed

lemma reachable_inv: "reachable s \<Longrightarrow> node_inv s"
  by (induction rule: reachable.induct) (simp_all add: node_inv_new node_inv_step)

lemma reachable_run: "reachable s \<Longrightarrow> reachable (run s es)"
  by (induction es arbitrary: s) (simp_all add: reachable.after)

lemma node_inv_fresh:
  assumes "node_inv s"
  shows "msgPromises s j \<noteq> Some (length (futures s))"
    and "(length (futures s), d) \<notin> set (timers s)"
proof -
  show "msgPromises s j \<noteq> Some (length (futures s))"
    using assms by (fastforce simp: node_inv_def)
  show "(length (futures s), d) \<notin> set (timers s)"
    using assms by (fastforce simp: node_inv_def)
qed

section \<open>A pending call stays pending until a response or its timer\<close>

lemma waiting_step:
  assumes "waiting s i h" and "\<not> answers i e"
    and "expires h e \<Longrightarrow> \<forall>d. (h, d) \<notin> set (timers s)"
  shows "waiting (step s e) i h"
proof (cases e)
  case (AddMethod n f)
  then show ?thesis using assms by (simp add: waiting_def addMethod_def)
next
  case (CallRequest peer n ps out)
  then show ?thesis using assms
    by (cases out) (auto simp: waiting_def request_Delivered request_Failed nth_append)
next
  case (RequestSends peer n ps out)
  then show ?thesis using assms
    by (cases out) (simp_all add: waiting_def request_send_state)
next
  case (RequestRegisters j)
  then show ?thesis using assms
    by (auto simp: waiting_def request_register_state nth_append)
next
  case (CallNotify peer n ps out)
  then show ?thesis using assms
    by (cases out) (simp_all add: waiting_def notify_state)
next
  case (Inbound m peer out)
  show ?thesis
  proof (cases "msg_request m")
    case (Some rq)
    then show ?thesis using Inbound assms
      by (simp add: waiting_def handleMessage_request_fields)
  next
    case None
    then show ?thesis using Inbound assms
      by (cases "msg_response m")
         (auto simp: waiting_def handleMessage_neither handleMessage_response nth_list_update
               split: option.split if_splits)
  qed
next
  case (TimerRuns h' d)
  then show ?thesis using assms
    by (auto simp: waiting_def fire_timeout_state nth_list_update)
qed

lemma timer_kept_step:
  assumes "(h, d) \<in> set (timers s)" and "\<not> expires h e"
  shows "(h, d) \<in> set (timers (step s e))"
proof (cases e)
  case (CallRequest peer n ps out)
  then show ?thesis using assms
    by (cases out) (simp_all add: request_Delivered request_Failed)
next
  case (Inbound m peer out)
  show ?thesis
  proof (cases "msg_request m")
    case (Some rq)
    then show ?thesis using Inbound assms by (simp add: handleMessage_request_fields)
  next
    case None
    then show ?thesis using Inbound assms
      by (cases "msg_response m")
         (simp_all add: handleMessage_neither handleMessage_response split: option.split)
  qed
next
  case (TimerRuns h' d')
  then show ?thesis using assms
    by (auto simp: fire_timeout_state)
qed (simp_all add: assms addMethod_def request_send_state request_register_state notify_state
       split: send_outcome.split)

lemma no_timer_step:
  assumes "\<forall>d. (h, d) \<notin> set (timers s)" and "h < length (futures s)"
  shows "\<forall>d. (h, d) \<notin> set (timers (step s e))"
proof (cases e)
  case (CallRequest peer n ps out)
  then show ?thesis using assms
    by (cases out) (auto simp: request_Delivered request_Failed)
next
  case (Inbound m peer out)
  show ?thesis
  proof (cases "msg_request m")
    case (Some rq)
    then show ?thesis using Inbound assms by (simp add: handleMessage_request_fields)
  next
    case None
    then show ?thesis using Inbound assms
      by (cases "msg_response m")
         (simp_all add: handleMessage_neither handleMessage_response split: option.split)
  qed
next
  case (TimerRuns h' d')
  then show ?thesis using assms
    by (auto simp: fire_timeout_state dest: notin_set_remove1)
next
  case (RequestRegisters i)
  then show ?thesis using assms
    by (auto simp: request_register_state)
qed (simp_all add: assms addMethod_def request_send_state notify_state split: send_outcome.split)

lemma waiting_run_timer:
  assumes "waiting s i h" and "(h, d) \<in> set (timers s)"
    and "\<forall>e \<in> set es. \<not> answers i e \<and> \<not> expires h e"
  shows "waiting (run s es) i h \<and> (h, d) \<in> set (timers (run s es))"
  using assms
proof (induction es arbitrary: s)
  case Nil
  then show ?case by simp
next
  case (Cons e es)
  have "waiting (step s e) i h"
    using Cons.prems by (intro waiting_step) auto
  moreover have "(h, d) \<in> set (timers (step s e))"
    using Cons.prems by (intro timer_kept_step) auto
  ultimately show ?case
    using Cons.IH [of "step s e"] Cons.prems(3) by simp
qed

lemma waiting_run_no_timer:
  assumes "waiting s i h" and "\<forall>d. (h, d) \<notin> set (timers s)"
    and "\<forall>e \<in> set es. \<not> answers i e"
  shows "waiting (run s es) i h"
  using assms
proof (induction es arbitrary: s)
  case Nil
  then show ?case by simp
next
  case (Cons e es)
  have w: "waiting (step s e) i h"
    using Cons.prems by (intro waiting_step) auto
  have "h < length (futures s)"
    using Cons.prems(1) by (simp add: waiting_def)
  then have "\<forall>d. (h, d) \<notin> set (timers (step s e))"
    using Cons.prems(2) by (intro no_timer_step) auto
  then show ?case
    using w Cons.IH [of "step s e"] Cons.prems(3) by simp
qed

lemma register_waiting:
  assumes "node_inv s" and "request_register s i = (h, s1)"
  shows "waiting s1 i h"
    and "0 \<le> timeout (options s) \<Longrightarrow> (h, timeout (options s)) \<in> set (timers s1)"
    and "timeout (options s) < 0 \<Longrightarrow> timers s1 = timers s \<and> (\<forall>d. (h, d) \<notin> set (timers s1))"
proof -
  have h: "h = length (futures s)" using assms(2) by (simp add: request_register_state)
  have f: "futures s1 = futures s @ [Pending]"
    and m: "msgPromises s1 = (msgPromises s)(i \<mapsto> length (futures s))"
    and t: "timers s1 = (if timeout (options s) < 0 then timers s
                         else timers s @ [(length (futures s), timeout (options s))])"
    using assms(2) by (auto simp: request_register_state)
  show "waiting s1 i h"
    using node_inv_fresh(1) [OF assms(1)] by (auto simp: waiting_def h f m)
  show "(h, timeout (options s)) \<in> set (timers s1)" if "0 \<le> timeout (options s)"
    using that by (simp add: h t)
  show "timers s1 = timers s \<and> (\<forall>d. (h, d) \<notin> set (timers s1))" if "timeout (options s) < 0"
    using that node_inv_fresh(2) [OF assms(1)] by (simp add: h t)
qed

section \<open>The ids of consecutive requests\<close>

text \<open>
  Below \<open>2^53\<close> the counter counts exactly; at \<open>2^53\<close> it gives the same id again.
\<close>

lemma genMsgId_exact:
  "msgId s < 2 ^ 53 \<Longrightarrow> fst (genMsgId (snd (genMsgId s))) = fst (genMsgId s) + 1"
  by (simp add: genMsgId_def)

lemma genMsgId_stuck:
  "msgId s = 2 ^ 53 \<Longrightarrow> fst (genMsgId (snd (genMsgId s))) = fst (genMsgId s)"
  by (simp add: genMsgId_def)

lemma request_all_Cons:
  "fst (request_all s ((peer, n, ps, out) # cs)) =
     fst (request_send s peer n ps out) # fst (request_all (snd (request s peer n ps out)) cs)"
  "snd (request_all s ((peer, n, ps, out) # cs)) =
     snd (request_all (snd (request s peer n ps out)) cs)"
  by (simp_all add: case_prod_unfold)

lemma request_all_msgId:
  "msgId s + int (length cs) \<le> 2 ^ 53 \<Longrightarrow>
     msgId (snd (request_all s cs)) = msgId s + int (length cs)"
proof (induction s cs rule: request_all.induct)
  case (1 s)
  then show ?case by simp
next
  case (2 s peer n ps out cs)
  let ?s1 = "snd (request s peer n ps out)"
  have m: "msgId ?s1 = msgId s + 1"
    using "2.prems" by (simp add: request_msgId)
  then have "msgId (snd (request_all ?s1 cs)) = msgId ?s1 + int (length cs)"
    using "2.prems" by (intro "2.IH") simp
  then show ?case using m by (simp add: request_all_Cons del: request_all.simps)
qed

lemma request_all_ids:
  "msgId s + int (length cs) \<le> 2 ^ 53 + 1 \<Longrightarrow>
     fst (request_all s cs) = map (\<lambda>k. msgId s + int k) [0..<length cs]"
proof (induction s cs rule: request_all.induct)
  case (1 s)
  then show ?case by simp
next
  case (2 s peer n ps out cs)
  let ?s1 = "snd (request s peer n ps out)"
  show ?case
  proof (cases cs)
    case Nil
    then show ?thesis by (simp add: request_send_id request_all_Cons del: request_all.simps(2))
  next
    case (Cons c cs')
    then have m: "msgId ?s1 = msgId s + 1"
      using "2.prems" by (simp add: request_msgId)
    then have "fst (request_all ?s1 cs) = map (\<lambda>k. msgId ?s1 + int k) [0..<length cs]"
      using "2.prems" by (intro "2.IH") simp
    then have "fst (request_all ?s1 cs) = map (\<lambda>k. msgId s + int (Suc k)) [0..<length cs]"
      using m by simp
    then show ?thesis
      by (simp add: request_send_id request_all_Cons map_upt_Suc del: upt_Suc request_all.simps)
  qed
qed

lemma ids_increasing: "sorted_wrt (<) (map (\<lambda>k. a + int k) [0..<n])"
  by (simp add: sorted_wrt_map sorted_wrt_upt [THEN sorted_wrt_mono_rel [rotated]])

lemma ids_distinct: "distinct (map (\<lambda>k. a + int k) [0..<n])"
  by (simp add: distinct_map inj_on_def)

section \<open>The sample nodes\<close>

lemma pending_node_fields:
  "futures pending_node = [Pending]"
  "msgPromises pending_node = [0 \<mapsto> 0]"
  "timers pending_node = [(0, 50)]"
  "msgId pending_node = 1"
  "sent pending_node = [(''peerA'', createRequest ''echo'' 0 None)]"
  by (simp_all add: pending_node_def request_Delivered new_RPC_def opts50_def)

lemma two_pending_fields:
  "futures two_pending = [Pending, Pending]"
  "msgPromises two_pending = [0 \<mapsto> 0, 1 \<mapsto> 1]"
  "timers two_pending = [(0, 50), (1, 50)]"
  "msgId two_pending = 2"
proof -
  have o: "timeout (options pending_node) = 50"
    by (simp add: pending_node_def request_Delivered new_RPC_def opts50_def)
  show "futures two_pending = [Pending, Pending]"
    "msgPromises two_pending = [0 \<mapsto> 0, 1 \<mapsto> 1]"
    "timers two_pending = [(0, 50), (1, 50)]"
    "msgId two_pending = 2"
    by (simp_all add: two_pending_def request_Delivered pending_node_fields o)
qed

lemma timed_out_node_fields:
  "futures timed_out_node = [Rejected timeoutError]"
  "msgPromises timed_out_node = [0 \<mapsto> 0]"
  "timers timed_out_node = []"
  by (simp_all add: timed_out_node_def fire_timeout_state pending_node_fields settle_def)

lemma answered_node_fields:
  "futures answered_node = [Resolved (Some [5])]"
  "msgPromises answered_node 0 = None"
  "timers answered_node = [(0, 50)]"
proof -
  have r: "msg_request (createResponse 0 (Some [5])) = None"
    and p: "msg_response (createResponse 0 (Some [5]))
              = Some \<lparr>resp_id = 0, resp_result = Some [5], resp_error = None\<rparr>"
    by (simp_all add: createResponse_def)
  show "futures answered_node = [Resolved (Some [5])]"
    "msgPromises answered_node 0 = None"
    "timers answered_node = [(0, 50)]"
    by (simp_all add: answered_node_def handleMessage_response [OF r p] pending_node_fields
          settle_def)
qed

lemma reachable_pending_node: "reachable pending_node"
proof -
  have "reachable (step (new_RPC opts50) (CallRequest ''peerA'' ''echo'' None Delivered))"
    by (intro reachable.intros)
  then show ?thesis by (simp add: pending_node_def)
qed

section \<open>The claims\<close>

text \<open>
  C1. An inbound response whose id is that of a pending call settles that call's promise:
  with the response's result when it carries no error, with the carried \<open>RPCError\<close>
  otherwise. The node after \<open>handleMessage\<close> differs from the node before only in the
  tracker entry of that id, which is removed, and in that promise: every other promise and
  every other entry of \<open>msgPromises\<close> is as before, and the call ends without an error.
  The call is pending: its id leads to its promise in \<open>msgPromises\<close> and the promise is
  not settled, which is how \<open>request\<close> leaves it (\<open>request_Delivered\<close>).
\<close>

theorem response_settles_call:
  assumes "msg_request m = None" and "msg_response m = Some rs"
    and "msgPromises s (resp_id rs) = Some h"
    and "h < length (futures s)" and "futures s ! h = Pending"
  shows "handleMessage s m peer out =
           (None, s\<lparr>msgPromises := (msgPromises s)(resp_id rs := None),
                    futures := (futures s)[h := (case resp_error rs of
                                                   None \<Rightarrow> Resolved (resp_result rs)
                                                 | Some e \<Rightarrow> Rejected e)]\<rparr>) \<and>
         futures (snd (handleMessage s m peer out)) ! h =
           (case resp_error rs of None \<Rightarrow> Resolved (resp_result rs) | Some e \<Rightarrow> Rejected e) \<and>
         (\<forall>k. k \<noteq> h \<longrightarrow> futures (snd (handleMessage s m peer out)) ! k = futures s ! k) \<and>
         (\<forall>j. j \<noteq> resp_id rs \<longrightarrow>
              msgPromises (snd (handleMessage s m peer out)) j = msgPromises s j)"
  using assms
  by (simp add: handleMessage_def resolve_def reject_def settle_def split: option.split)

text \<open>
  On a node with two pending calls, ids 0 and 1: a response for id 1 resolves the second
  promise and leaves the first call as it was; an error response for id 0 rejects the first
  promise with the carried error.
\<close>

theorem response_settles_call_witness:
  "msgPromises two_pending 1 = Some 1 \<and> futures two_pending ! 1 = Pending \<and>
   futures (snd (handleMessage two_pending (createResponse 1 (Some [5])) ''peerB'' Delivered))
     = [Pending, Resolved (Some [5])] \<and>
   msgPromises (snd (handleMessage two_pending (createResponse 1 (Some [5])) ''peerB'' Delivered)) 0
     = Some 0 \<and>
   futures (snd (handleMessage two_pending (createError 0 ''boom'' 7) ''peerA'' Delivered))
     = [Rejected \<lparr>code = 7, message = ''boom''\<rparr>, Pending]"
proof -
  have r: "msg_request (createResponse 1 (Some [5])) = None"
    and p: "msg_response (createResponse 1 (Some [5]))
              = Some \<lparr>resp_id = 1, resp_result = Some [5], resp_error = None\<rparr>"
    by (simp_all add: createResponse_def)
  have e: "msg_request (createError 0 ''boom'' 7) = None"
    and q: "msg_response (createError 0 ''boom'' 7)
              = Some \<lparr>resp_id = 0, resp_result = None,
                       resp_error = Some \<lparr>code = 7, message = ''boom''\<rparr>\<rparr>"
    by (simp_all add: createError_def)
  have k1: "msgPromises two_pending
              (resp_id \<lparr>resp_id = 1, resp_result = Some [5], resp_error = None\<rparr>) = Some 1"
    and k0: "msgPromises two_pending
              (resp_id \<lparr>resp_id = 0, resp_result = None,
                        resp_error = Some \<lparr>code = 7, message = ''boom''\<rparr>\<rparr>) = Some 0"
    by (simp_all add: two_pending_fields)
  have l1: "1 < length (futures two_pending)" and l0: "0 < length (futures two_pending)"
    by (simp_all add: two_pending_fields)
  have f1: "futures two_pending ! 1 = Pending" and f0: "futures two_pending ! 0 = Pending"
    by (simp_all add: two_pending_fields)
  show ?thesis
    using response_settles_call [OF r p k1 l1 f1, of "''peerB''" Delivered]
      response_settles_call [OF e q k0 l0 f0, of "''peerA''" Delivered]
    by (simp add: two_pending_fields)
qed

text \<open>
  What the code keeps of C2. Once a promise is settled, no sequence of later events
  (responses, timers, further calls, in any interleaving) changes it. A response removes
  the tracker entry of its id before it settles the promise, so that a second response with
  the same id is discarded and changes nothing.
\<close>

lemma settled_once:
  assumes "h < length (futures s)" and "futures s ! h \<noteq> Pending"
  shows "h < length (futures (run s es)) \<and>
         futures (run s es) ! h = futures s ! h \<and>
         msgPromises (snd (handleMessage s \<lparr>msg_request = None, msg_response = Some rs\<rparr> peer out))
           (resp_id rs) = None \<and>
         handleMessage
           (snd (handleMessage s \<lparr>msg_request = None, msg_response = Some rs\<rparr> peer out))
           \<lparr>msg_request = None, msg_response = Some rs\<rparr> peer out'
           = (None, snd (handleMessage s \<lparr>msg_request = None, msg_response = Some rs\<rparr> peer out))"
proof -
  let ?m = "\<lparr>msg_request = None, msg_response = Some rs\<rparr>"
  have r: "msg_request ?m = None" and p: "msg_response ?m = Some rs"
    by simp_all
  have gone: "msgPromises (snd (handleMessage s ?m peer out)) (resp_id rs) = None"
    by (simp add: handleMessage_response [OF r p] split: option.split)
  have "handleMessage (snd (handleMessage s ?m peer out)) ?m peer out'
          = (None, snd (handleMessage s ?m peer out))"
    using gone by (simp add: handleMessage_def [of "snd (handleMessage s ?m peer out)"])
  then show ?thesis
    using run_settled [OF assms, of es] gone by simp
qed

text \<open>
  The call of \<open>answered_node\<close> was resolved by a response; its timer, which is still
  scheduled, and a late error response leave the promise resolved.
\<close>

lemma settled_once_example:
  "futures answered_node ! 0 = Resolved (Some [5]) \<and>
   futures (run answered_node
      [TimerRuns 0 50, Inbound (createError 0 ''late'' 1) ''peerA'' Delivered]) ! 0
     = Resolved (Some [5])"
proof -
  have l: "0 < length (futures answered_node)"
    and f: "futures answered_node ! 0 \<noteq> Pending"
    by (simp_all add: answered_node_fields)
  show ?thesis
    using settled_once [OF l f,
        of "[TimerRuns 0 50, Inbound (createError 0 ''late'' 1) ''peerA'' Delivered]"]
    by (simp add: answered_node_fields)
qed

text \<open>
  C2. For every id in the tracker at most one of resolve, reject and timeout is to take
  effect, the entry being removed before the promise is settled, so that whatever comes
  later for that id is a no-op. The response path does so (\<open>msgPromises.delete\<close> before
  \<open>resolve\<close> or \<open>reject\<close>); the timeout callback does not: it settles the promise and
  leaves the entry. When the timer of call 0 has run, the promise is rejected and the entry
  of id 0 is still in \<open>msgPromises\<close>; a response with id 0 that comes later is not
  discarded as unknown: it finds the entry and deletes it, and the promise keeps its
  rejection only because a promise settles once.
\<close>

theorem timeout_settles_without_removal:
  "futures timed_out_node ! 0 = Rejected timeoutError \<and>
   msgPromises timed_out_node 0 = Some 0 \<and>
   msgPromises (snd (handleMessage timed_out_node (createResponse 0 (Some [5])) ''peerA'' Delivered)) 0
     = None \<and>
   futures (snd (handleMessage timed_out_node (createResponse 0 (Some [5])) ''peerA'' Delivered)) ! 0
     = Rejected timeoutError"
proof -
  have r: "msg_request (createResponse 0 (Some [5])) = None"
    and p: "msg_response (createResponse 0 (Some [5]))
              = Some \<lparr>resp_id = 0, resp_result = Some [5], resp_error = None\<rparr>"
    by (simp_all add: createResponse_def)
  show ?thesis
    by (simp add: handleMessage_response [OF r p] timed_out_node_fields settle_def)
qed

text \<open>
  What the code keeps of C3, for a call registered by \<open>request_register\<close> under the id
  \<open>i\<close> on a reachable node, whether the call ran through or other steps came in while
  its send was in flight. Let no response with the id \<open>i\<close> arrive afterwards. If the
  configured timeout is not negative, the promise is pending as long as the call's timer
  has not run, and when the timer runs the promise is rejected with
  \<open>{code: 0, message: "timeout"}\<close>. If the configured timeout is negative, no timer is
  scheduled and the promise stays pending whatever else happens.
\<close>

lemma timeout_rejects_registered:
  assumes "reachable s" and "request_register s i = (h, s1)"
    and "\<forall>e \<in> set es. \<not> answers i e"
  shows "(0 \<le> timeout (options s) \<and> (\<forall>e \<in> set es. \<not> expires h e) \<longrightarrow>
            futures (run s1 es) ! h = Pending \<and>
            futures (fire_timeout (run s1 es) (h, timeout (options s))) ! h = Rejected timeoutError) \<and>
         (timeout (options s) < 0 \<longrightarrow>
            timers s1 = timers s \<and> futures (run s1 es) ! h = Pending)"
proof -
  have inv: "node_inv s" using assms(1) by (rule reachable_inv)
  have w: "waiting s1 i h" using inv assms(2) by (rule register_waiting(1))
  have a: "futures (run s1 es) ! h = Pending \<and>
           futures (fire_timeout (run s1 es) (h, timeout (options s))) ! h = Rejected timeoutError"
    if t: "0 \<le> timeout (options s)" and q: "\<forall>e \<in> set es. \<not> expires h e"
  proof -
    have "(h, timeout (options s)) \<in> set (timers s1)"
      using inv assms(2) t by (rule register_waiting(2))
    then have "waiting (run s1 es) i h \<and> (h, timeout (options s)) \<in> set (timers (run s1 es))"
      using w assms(3) q by (intro waiting_run_timer) auto
    then show ?thesis
      by (simp add: waiting_def fire_timeout_state settle_def)
  qed
  have b: "timers s1 = timers s \<and> futures (run s1 es) ! h = Pending"
    if t: "timeout (options s) < 0"
  proof -
    have n: "timers s1 = timers s \<and> (\<forall>d. (h, d) \<notin> set (timers s1))"
      using inv assms(2) t by (rule register_waiting(3))
    then have "waiting (run s1 es) i h"
      using w assms(3) by (intro waiting_run_no_timer) auto
    then show ?thesis using n by (simp add: waiting_def)
  qed
  show ?thesis using a b by blast
qed

text \<open>The same for a call of \<open>request\<close> that runs through.\<close>

lemma timeout_rejects_call:
  assumes "reachable s" and "request s peer n ps Delivered = (Inr h, s1)"
    and "\<forall>e \<in> set es. \<not> answers (msgId s) e"
  shows "(0 \<le> timeout (options s) \<and> (\<forall>e \<in> set es. \<not> expires h e) \<longrightarrow>
            futures (run s1 es) ! h = Pending \<and>
            futures (fire_timeout (run s1 es) (h, timeout (options s))) ! h = Rejected timeoutError) \<and>
         (timeout (options s) < 0 \<longrightarrow>
            timers s1 = timers s \<and> futures (run s1 es) ! h = Pending)"
proof -
  let ?s' = "snd (snd (request_send s peer n ps Delivered))"
  have "reachable (step s (RequestSends peer n ps Delivered))"
    using assms(1) by (rule reachable.after)
  then have r: "reachable ?s'" by simp
  have g: "request_register ?s' (msgId s) = (h, s1)"
    using assms(2) by (simp add: request_halves split: prod.splits)
  have o: "options ?s' = options s" and t: "timers ?s' = timers s"
    by (simp_all add: request_send_state)
  show ?thesis
    using timeout_rejects_registered [OF r g assms(3)] by (simp add: o t)
qed

text \<open>
  With a timeout of 50 the timer of the first call rejects its promise; with a timeout of
  -1 no timer is scheduled and the promise is still pending after a timer event and a
  response for another id.
\<close>

lemma timeout_rejects_call_example:
  "futures (fire_timeout (run pending_node [CallNotify ''peerB'' ''ping'' None (Failed ''down'')])
      (0, 50)) ! 0 = Rejected timeoutError \<and>
   timers (snd (request (new_RPC opts_no_timeout) ''peerA'' ''echo'' None Delivered)) = [] \<and>
   futures (run (snd (request (new_RPC opts_no_timeout) ''peerA'' ''echo'' None Delivered))
      [TimerRuns 0 (- 1), Inbound (createResponse 1 None) ''peerA'' Delivered]) ! 0 = Pending"
proof -
  let ?a = "new_RPC opts50" and ?b = "new_RPC opts_no_timeout"
  let ?b1 = "snd (request ?b ''peerA'' ''echo'' None Delivered)"
  let ?es = "[CallNotify ''peerB'' ''ping'' None (Failed ''down'')]"
  let ?fs = "[TimerRuns 0 (- 1), Inbound (createResponse 1 None) ''peerA'' Delivered]"
  have ra: "reachable ?a" and rb: "reachable ?b"
    by (rule reachable.init)+
  have qa: "request ?a ''peerA'' ''echo'' None Delivered = (Inr 0, pending_node)"
    by (simp add: pending_node_def request_Delivered new_RPC_def)
  have qb: "request ?b ''peerA'' ''echo'' None Delivered = (Inr 0, ?b1)"
    by (simp add: request_Delivered new_RPC_def)
  have ea: "\<forall>e \<in> set ?es. \<not> answers (msgId ?a) e"
    by simp
  have eb: "\<forall>e \<in> set ?fs. \<not> answers (msgId ?b) e"
    by (simp add: createResponse_def new_RPC_def)
  have ta: "timeout (options ?a) = 50" and tb: "timeout (options ?b) = - 1"
    and tm: "timers ?b = []"
    by (simp_all add: new_RPC_def opts50_def opts_no_timeout_def)
  show ?thesis
    using timeout_rejects_call [OF ra qa ea] timeout_rejects_call [OF rb qb eb]
    by (simp add: ta tb tm)
qed

text \<open>
  A call whose send and registration are interleaved with a second call: the first call
  takes the id 0 and sends, the second call runs through with the id 1, then the first
  registers and gets the promise 1. Its timer rejects that promise.
\<close>

lemma timeout_rejects_interleaved_example:
  "futures (fire_timeout (run (new_RPC opts50)
      [RequestSends ''peerA'' ''a'' None Delivered, CallRequest ''peerB'' ''b'' None Delivered,
       RequestRegisters 0]) (1, 50)) ! 1 = Rejected timeoutError"
proof -
  let ?s = "run (new_RPC opts50)
      [RequestSends ''peerA'' ''a'' None Delivered, CallRequest ''peerB'' ''b'' None Delivered]"
  have r: "reachable ?s"
    using reachable_run [OF reachable.init] .
  have g: "request_register ?s 0 = (1, snd (request_register ?s 0))"
    by (simp add: request_register_state request_send_state request_Delivered new_RPC_def)
  have e: "\<forall>e \<in> set ([] :: event list). \<not> answers 0 e"
    by simp
  show ?thesis
    using timeout_rejects_registered [OF r g e]
    by (simp add: request_options request_send_state new_RPC_def opts50_def)
qed

text \<open>
  C3. When no response settles a call registered with a non-negative timeout, the timeout
  action is to reject the call with \<open>{code: 0, message: "timeout"}\<close> and to remove its
  entry from the tracker. The code rejects and does not remove: on a node with the default
  timeout of 5000, after the timer of the first call has run the promise is rejected with
  code 0 and message "timeout", and the entry of id 0 is still in \<open>msgPromises\<close>.
\<close>

theorem timeout_leaves_entry:
  "futures (fire_timeout (snd (request (new_RPC no_opts) ''peerA'' ''slow'' None Delivered)) (0, 5000)) ! 0
     = Rejected \<lparr>code = 0, message = ''timeout''\<rparr> \<and>
   msgPromises (fire_timeout (snd (request (new_RPC no_opts) ''peerA'' ''slow'' None Delivered)) (0, 5000)) 0
     = Some 0"
  by (simp add: request_Delivered fire_timeout_state new_RPC_def no_opts_def settle_def
        timeoutError_def)

text \<open>
  C4. When the transport fails to send, \<open>request\<close> ends at once with the error
  \<open>{code: -32000, message}\<close>, the message being the transport error's. Of the node only
  the id counter has changed, the id having been allocated before the send:
  \<open>msgPromises\<close> has no new entry, no promise and no timer was created, nothing was sent.
\<close>

theorem request_send_failure:
  "request s peer n ps (Failed e) = (Inl \<lparr>code = - 32000, message = e\<rparr>, snd (genMsgId s)) \<and>
   msgPromises (snd (request s peer n ps (Failed e))) = msgPromises s \<and>
   futures (snd (request s peer n ps (Failed e))) = futures s \<and>
   timers (snd (request s peer n ps (Failed e))) = timers s \<and>
   sent (snd (request s peer n ps (Failed e))) = sent s"
  by (simp add: request_def request_send_def send_def genMsgId_def)

text \<open>
  The thrown values for which the normalisation of C5 works: an \<open>RPCException\<close> keeps its
  message and code, another \<open>Error\<close> gives its message at code 0, a value that
  \<open>JSON.stringify\<close> handles gives that text at code 0. The error goes back in an error
  response carrying the request's id.
\<close>

lemma handler_error_normalised:
  assumes "msg_request m = Some rq" and "req_id rq = Some i"
    and "methods s (req_name rq) = Some f" and "f (req_params rq) peer = Inl err"
    and "err \<noteq> Other JSONThrows"
  shows "handleMessage s m peer Delivered =
           (None, s\<lparr>sent := sent s @
              [(peer, createError i
                 (case err of RPCException t c \<Rightarrow> t | Error t \<Rightarrow> t
                    | Other (JSONText t) \<Rightarrow> t | Other _ \<Rightarrow> '''')
                 (case err of RPCException t c \<Rightarrow> c | _ \<Rightarrow> 0))]\<rparr>)"
proof (cases err)
  case (Other v)
  then show ?thesis using assms
    by (cases v) (simp_all add: handleMessage_def send_def)
qed (use assms in \<open>simp_all add: handleMessage_def send_def\<close>)

text \<open>
  Where \<open>JSON.stringify\<close> throws, what goes back is a success response without result.
\<close>

lemma handler_unstringifiable:
  assumes "msg_request m = Some rq" and "req_id rq = Some i"
    and "methods s (req_name rq) = Some f"
    and "f (req_params rq) peer = Inl (Other JSONThrows)"
  shows "handleMessage s m peer Delivered =
           (None, s\<lparr>sent := sent s @ [(peer, createResponse i None)]\<rparr>)"
  using assms by (simp add: handleMessage_def send_def)

text \<open>
  C5. What a handler throws is to go back as an error response carrying the request's id,
  with the message "unknown error" at code 0 when the value cannot be stringified. The
  code loses this fallback: a request with id 7 for a handler that throws a value which
  \<open>JSON.stringify\<close> cannot serialise is answered with a response carrying id 7, no
  result and no error.
\<close>

theorem unknown_error_fallback_lost:
  "handleMessage exploding_node (createRequest ''explode'' 7 None) ''peerA'' Delivered =
     (None, exploding_node\<lparr>sent := [(''peerA'', createResponse 7 None)]\<rparr>) \<and>
   createResponse 7 None =
     \<lparr>msg_request = None,
      msg_response = Some \<lparr>resp_id = 7, resp_result = None, resp_error = None\<rparr>\<rparr>"
  by (simp add: handleMessage_def send_def exploding_node_def addMethod_def new_RPC_def
        createRequest_def createResponse_def explode_def)

text \<open>
  C6. An inbound request without id, a notification, never leads to a send and never ends
  in an error: whatever its handler returns or throws, and whether a handler is registered
  or not, the node is as before. \<open>notify\<close> throws nothing to its caller, whatever the
  outcome of its send; when the send fails the node is as before.
\<close>

theorem notification_failures_swallowed:
  assumes "msg_request m = Some rq" and "req_id rq = None"
  shows "handleMessage s m peer out = (None, s) \<and>
         fst (notify s peer' n ps out') = None \<and>
         notify s peer' n ps (Failed e) = (None, s)"
  using assms
  by (simp add: handleMessage_def notify_state split: option.split sum.split)

text \<open>
  A notification for the handler that always throws, a notification for an unknown method,
  and a \<open>notify\<close> whose send fails all leave the node as it was.
\<close>

theorem notification_failures_swallowed_witness:
  "handleMessage exploding_node (createNotification ''explode'' None) ''peerA'' Delivered
     = (None, exploding_node) \<and>
   handleMessage exploding_node (createNotification ''missing'' None) ''peerA'' Delivered
     = (None, exploding_node) \<and>
   notify exploding_node ''peerA'' ''explode'' None (Failed ''down'') = (None, exploding_node)"
proof -
  have a: "msg_request (createNotification ''explode'' None)
             = Some \<lparr>req_id = None, req_name = ''explode'', req_params = None\<rparr>"
    and b: "msg_request (createNotification ''missing'' None)
             = Some \<lparr>req_id = None, req_name = ''missing'', req_params = None\<rparr>"
    by (simp_all add: createNotification_def)
  have i: "req_id \<lparr>req_id = None, req_name = ''explode'', req_params = None\<rparr> = None"
    and j: "req_id \<lparr>req_id = None, req_name = ''missing'', req_params = None\<rparr> = None"
    by simp_all
  show ?thesis
    using notification_failures_swallowed [OF a i, of exploding_node "''peerA''" Delivered
        "''peerA''" "''explode''" None Delivered "''down''"]
      notification_failures_swallowed [OF b j, of exploding_node "''peerA''" Delivered
        "''peerA''" "''explode''" None Delivered "''down''"]
    by simp
qed

text \<open>
  C7. An inbound request with id \<open>i\<close> whose name has no registered handler is answered by
  sending \<open>createMethodNotFoundError i\<close> to the sender, and by nothing else: the call is
  that one send, so it raises nothing of its own, and when the transport takes the message
  the call ends without an error. The message is a response carrying the id \<open>i\<close>, no
  result and the reserved code \<open>METHOD_NOT_FOUND\<close>.
\<close>

theorem method_not_found_response:
  assumes "msg_request m = Some rq" and "req_id rq = Some i"
    and "methods s (req_name rq) = None"
  shows "handleMessage s m peer out = send s peer (createMethodNotFoundError i) out \<and>
         handleMessage s m peer Delivered =
           (None, s\<lparr>sent := sent s @ [(peer, createMethodNotFoundError i)]\<rparr>) \<and>
         msg_request (createMethodNotFoundError i) = None \<and>
         msg_response (createMethodNotFoundError i) =
           Some \<lparr>resp_id = i, resp_result = None,
                 resp_error = Some \<lparr>code = METHOD_NOT_FOUND, message = ''Method not found''\<rparr>\<rparr>"
  using assms
  by (simp add: handleMessage_def send_def createMethodNotFoundError_def createError_def)

text \<open>
  A request with id 4 for the name "missing", which the node does not know.
\<close>

theorem method_not_found_response_witness:
  "handleMessage exploding_node (createRequest ''missing'' 4 None) ''peerA'' Delivered =
     (None, exploding_node\<lparr>sent := [(''peerA'', createError 4 ''Method not found'' (- 32601))]\<rparr>)"
proof -
  have a: "msg_request (createRequest ''missing'' 4 None)
             = Some \<lparr>req_id = Some 4, req_name = ''missing'', req_params = None\<rparr>"
    by (simp add: createRequest_def)
  have i: "req_id \<lparr>req_id = Some 4, req_name = ''missing'', req_params = None\<rparr> = Some 4"
    by simp
  have n: "methods exploding_node
             (req_name \<lparr>req_id = Some 4, req_name = ''missing'', req_params = None\<rparr>) = None"
    by (simp add: exploding_node_def addMethod_def new_RPC_def)
  have s: "sent exploding_node = []"
    by (simp add: exploding_node_def addMethod_def new_RPC_def)
  show ?thesis
    using method_not_found_response [OF a i n, of "''peerA''" Delivered]
    by (simp add: s createMethodNotFoundError_def METHOD_NOT_FOUND_def send_def)
qed

text \<open>
  C8. An inbound response whose id has no entry in \<open>msgPromises\<close> is discarded: the call
  ends without an error and the node is exactly as before (the registry, the tracker, every
  promise and timer, the messages sent), so nothing was sent.
\<close>

theorem unknown_response_discarded:
  assumes "msg_request m = None" and "msg_response m = Some rs"
    and "msgPromises s (resp_id rs) = None"
  shows "handleMessage s m peer out = (None, s)"
  using assms by (simp add: handleMessage_def)

text \<open>
  A response for the id 9, which was never allocated, and a second response for a call that
  was already answered.
\<close>

theorem unknown_response_discarded_witness:
  "handleMessage two_pending (createResponse 9 (Some [5])) ''peerA'' Delivered = (None, two_pending) \<and>
   handleMessage answered_node (createResponse 0 (Some [5])) ''peerA'' Delivered = (None, answered_node)"
proof -
  have r: "msg_request (createResponse 9 (Some [5])) = None"
    and p: "msg_response (createResponse 9 (Some [5]))
              = Some \<lparr>resp_id = 9, resp_result = Some [5], resp_error = None\<rparr>"
    and r': "msg_request (createResponse 0 (Some [5])) = None"
    and p': "msg_response (createResponse 0 (Some [5]))
              = Some \<lparr>resp_id = 0, resp_result = Some [5], resp_error = None\<rparr>"
    by (simp_all add: createResponse_def)
  have k: "msgPromises two_pending
             (resp_id \<lparr>resp_id = 9, resp_result = Some [5], resp_error = None\<rparr>) = None"
    by (simp add: two_pending_fields)
  have k': "msgPromises answered_node
             (resp_id \<lparr>resp_id = 0, resp_result = Some [5], resp_error = None\<rparr>) = None"
    by (simp add: answered_node_fields)
  show ?thesis
    using unknown_response_discarded [OF r p k, of "''peerA''" Delivered]
      unknown_response_discarded [OF r' p' k', of "''peerA''" Delivered]
    by simp
qed

text \<open>
  C9. On a reachable node the ids allocated by N consecutive calls of \<open>request\<close>,
  whatever the outcomes of their sends, are \<open>msgId\<close>, \<open>msgId + 1\<close>, ... in this order:
  non-negative, strictly increasing and pairwise distinct. The ids are taken in the range
  where the counter, a JavaScript number, counts exactly, up to \<open>2^53\<close>; the spec leaves
  the exhaustion of the id range outside the range it addresses. \<open>notify\<close> allocates no
  id: it leaves the counter as it is, and the message it sends,
  \<open>createNotification n ps\<close>, carries none.
\<close>

theorem request_ids_monotonic:
  assumes "reachable s" and "msgId s + int (length cs) \<le> 2 ^ 53 + 1"
  shows "fst (request_all s cs) = map (\<lambda>k. msgId s + int k) [0..<length cs] \<and>
         sorted_wrt (<) (fst (request_all s cs)) \<and>
         distinct (fst (request_all s cs)) \<and>
         (\<forall>i \<in> set (fst (request_all s cs)). 0 \<le> i) \<and>
         msgId (snd (notify s peer n ps out)) = msgId s \<and>
         snd (notify s peer n ps Delivered) = s\<lparr>sent := sent s @ [(peer, createNotification n ps)]\<rparr> \<and>
         request_ids [(peer, createNotification n ps)] = []"
proof -
  have ids: "fst (request_all s cs) = map (\<lambda>k. msgId s + int k) [0..<length cs]"
    using assms(2) by (rule request_all_ids)
  have "0 \<le> msgId s"
    using reachable_inv [OF assms(1)] by (simp add: node_inv_def)
  then have "\<forall>i \<in> set (fst (request_all s cs)). 0 \<le> i"
    by (auto simp: ids)
  moreover have "msgId (snd (notify s peer n ps out)) = msgId s"
    by (cases out) (simp_all add: notify_state)
  moreover have "request_ids [(peer, createNotification n ps)] = []"
    by (simp add: request_ids_def createNotification_def)
  ultimately show ?thesis
    using ids ids_increasing [of "msgId s" "length cs"] ids_distinct [of "msgId s" "length cs"]
    by (simp add: notify_state)
qed

text \<open>
  Three further calls on the node that has made one call, the second failing to send, get
  the ids 1, 2 and 3.
\<close>

theorem request_ids_monotonic_witness:
  "fst (request_all pending_node
      [(''peerA'', ''a'', None, Delivered), (''peerB'', ''b'', None, Failed ''down''),
       (''peerA'', ''c'', None, Delivered)]) = [1, 2, 3] \<and>
   msgId (snd (notify pending_node ''peerA'' ''ping'' None Delivered)) = 1"
proof -
  let ?cs = "[(''peerA'', ''a'', None, Delivered), (''peerB'', ''b'', None, Failed ''down''),
       (''peerA'', ''c'', None, Delivered)] :: call list"
  have b: "msgId pending_node + int (length ?cs) \<le> 2 ^ 53 + 1"
    by (simp add: pending_node_fields)
  have u: "[0..<3] = [0, 1, 2]"
    by (simp add: upt_rec)
  show ?thesis
    using request_ids_monotonic [OF reachable_pending_node b, of "''peerA''" "''ping''" None Delivered]
    by (simp add: pending_node_fields u del: request_all.simps)
qed

text \<open>
  C10. \<open>request\<close> allocates its id before it sends: a call whose send fails has taken the
  id \<open>msgId\<close> and leaves the counter at \<open>msgId + 1\<close>. After any sequence of calls of
  \<open>request\<close>, delivered or failed, the id that \<open>genMsgId\<close> gives next is greater than
  every id these calls allocated (in the exact range of the counter, as for C9). The ids
  of the requests that were sent need not be consecutive: of three calls on a new node of
  which the second fails, the requests sent carry the ids 0 and 2.
\<close>

theorem failed_request_consumes_id:
  assumes "msgId s + int (length cs) \<le> 2 ^ 53"
  shows "(\<forall>i \<in> set (fst (request_all s cs)). i < fst (genMsgId (snd (request_all s cs)))) \<and>
         (msgId s < 2 ^ 53 \<longrightarrow>
            fst (request_send s peer n ps (Failed e)) = msgId s \<and>
            fst (genMsgId (snd (request s peer n ps (Failed e)))) = msgId s + 1) \<and>
         request_ids (sent (snd (request_all (new_RPC no_opts)
            [(''peerA'', ''a'', None, Delivered), (''peerA'', ''b'', None, Failed ''down''),
             (''peerA'', ''c'', None, Delivered)]))) = [0, 2]"
proof -
  have ids: "fst (request_all s cs) = map (\<lambda>k. msgId s + int k) [0..<length cs]"
    using assms by (intro request_all_ids) simp
  have "fst (genMsgId (snd (request_all s cs))) = msgId s + int (length cs)"
    using assms by (simp add: genMsgId_def request_all_msgId)
  then have a: "\<forall>i \<in> set (fst (request_all s cs)). i < fst (genMsgId (snd (request_all s cs)))"
    by (auto simp: ids)
  have b: "msgId s < 2 ^ 53 \<longrightarrow>
            fst (request_send s peer n ps (Failed e)) = msgId s \<and>
            fst (genMsgId (snd (request s peer n ps (Failed e)))) = msgId s + 1"
    by (simp add: request_send_id request_Failed genMsgId_def)
  have c: "request_ids (sent (snd (request_all (new_RPC no_opts)
            [(''peerA'', ''a'', None, Delivered), (''peerA'', ''b'', None, Failed ''down''),
             (''peerA'', ''c'', None, Delivered)]))) = [0, 2]"
    by (simp add: request_Delivered request_Failed new_RPC_def no_opts_def request_ids_def
          createRequest_def)
  show ?thesis using a b c by blast
qed

text \<open>
  A failed call on the node whose counter is at 1 takes the id 1 and leaves 2 as the next.
\<close>

theorem failed_request_consumes_id_witness:
  "fst (request_send pending_node ''peerA'' ''x'' None (Failed ''down'')) = 1 \<and>
   fst (genMsgId (snd (request pending_node ''peerA'' ''x'' None (Failed ''down'')))) = 2"
proof -
  have b: "msgId pending_node + int (length ([] :: call list)) \<le> 2 ^ 53"
    by (simp add: pending_node_fields)
  show ?thesis
    using failed_request_consumes_id [OF b, of "''peerA''" "''x''" None "''down''"]
    by (simp add: pending_node_fields del: request_all.simps)
qed

end
